theory Spec2Isabelle
  imports Main "HOL-Library.Sublist"
begin

section \<open>Python string operations used by the completion script\<close>

text \<open>
  A Python \<open>str\<close> is modelled as a \<open>string\<close> (a list of characters); one list element
  stands for one code point, so \<open>length\<close> is Python's \<open>len\<close>. Character literals that
  cannot be written inside a HOL string literal are given by their code.
\<close>

definition newline :: char where
  "newline = CHR 0x0A"

definition backslash :: char where
  "backslash = CHR 0x5C"

text \<open>
  Python slicing. A slice bound \<open>i\<close> is any integer: a negative bound counts from the
  end, and every bound is clipped to \<open>[0, len]\<close>. \<open>slice_to s i\<close> is \<open>s[:i]\<close> and
  \<open>slice_from s i\<close> is \<open>s[i:]\<close>.
\<close>

definition clip_index :: "int \<Rightarrow> nat \<Rightarrow> nat" where
  "clip_index i n = (if i < 0 then nat (max 0 (int n + i)) else min (nat i) n)"

definition slice_to :: "'a list \<Rightarrow> int \<Rightarrow> 'a list" where
  "slice_to s i = take (clip_index i (length s)) s"

definition slice_from :: "'a list \<Rightarrow> int \<Rightarrow> 'a list" where
  "slice_from s i = drop (clip_index i (length s)) s"

text \<open>\<open>s.startswith(p)\<close> and \<open>s.endswith(p)\<close>.\<close>

definition startswith :: "'a list \<Rightarrow> 'a list \<Rightarrow> bool" where
  "startswith s p = (take (length p) s = p)"

definition endswith :: "'a list \<Rightarrow> 'a list \<Rightarrow> bool" where
  "endswith s p = (length p \<le> length s \<and> drop (length s - length p) s = p)"

text \<open>
  \<open>s.rsplit(sep, 1)\<close> for a one-character separator: the string is cut at the last
  occurrence of the separator, found by scanning from the right; without an occurrence
  the result is the one-element list \<open>[s]\<close>.
\<close>

definition rsplit1 :: "'a \<Rightarrow> 'a list \<Rightarrow> 'a list list" where
  "rsplit1 sep s =
     (if sep \<in> set s
      then [rev (tl (dropWhile (\<lambda>c. c \<noteq> sep) (rev s))),
            rev (takeWhile (\<lambda>c. c \<noteq> sep) (rev s))]
      else [s])"

text \<open>\<open>s.strip(chars)\<close>: characters of \<open>chars\<close> are removed from both ends.\<close>

definition strip :: "'a list \<Rightarrow> 'a list \<Rightarrow> 'a list" where
  "strip s chars =
     rev (dropWhile (\<lambda>c. c \<in> set chars) (rev (dropWhile (\<lambda>c. c \<in> set chars) s)))"

section \<open>The completion script: splitting the buffer and reconciling the reply\<close>

text \<open>The marker \<open>zsh_prefix = "#!/bin/zsh\n\n"\<close> of \<open>main\<close>.\<close>

definition zsh_prefix :: string where
  "zsh_prefix = ''#!/bin/zsh'' @ [newline, newline]"

text \<open>
  \<open>buffer_prefix = buffer[: args.cursor_position]\<close>,
  \<open>buffer_suffix = buffer[args.cursor_position :]\<close> and
  \<open>full_command = zsh_prefix + buffer_prefix + buffer_suffix\<close>. The cursor position is
  whatever integer \<open>argparse\<close> read (\<open>type=int\<close>).
\<close>

definition buffer_prefix :: "string \<Rightarrow> int \<Rightarrow> string" where
  "buffer_prefix buffer cursor_position = slice_to buffer cursor_position"

definition buffer_suffix :: "string \<Rightarrow> int \<Rightarrow> string" where
  "buffer_suffix buffer cursor_position = slice_from buffer cursor_position"

definition full_command :: "string \<Rightarrow> int \<Rightarrow> string" where
  "full_command buffer cursor_position =
     zsh_prefix @ buffer_prefix buffer cursor_position @ buffer_suffix buffer cursor_position"

text \<open>
  The loop \<open>for prefix in [buffer_prefix, line_prefix]: if completion.startswith(prefix):
  completion = completion[len(prefix):]; break\<close>, over any list of candidates.
\<close>

fun strip_first_prefix :: "string \<Rightarrow> string list \<Rightarrow> string" where
  "strip_first_prefix completion [] = completion"
| "strip_first_prefix completion (pre # rest) =
     (if startswith completion pre
      then slice_from completion (int (length pre))
      else strip_first_prefix completion rest)"

text \<open>
  The post-processing of \<open>main\<close> between the backend call and the write to standard
  output, as a function of the two parts of the buffer and of the reply;
  \<open>line_prefix = buffer_prefix.rsplit("\n", 1)[-1]\<close>.
\<close>

definition line_prefix :: "string \<Rightarrow> string" where
  "line_prefix bprefix = last (rsplit1 newline bprefix)"

definition reconcile :: "string \<Rightarrow> string \<Rightarrow> string \<Rightarrow> string" where
  "reconcile bprefix bsuffix completion =
     (let c1 = (if startswith completion zsh_prefix
                then slice_from completion (int (length zsh_prefix))
                else completion);
          c2 = strip_first_prefix c1 [bprefix, line_prefix bprefix];
          c3 = (if bsuffix \<noteq> [] \<and> endswith c2 bsuffix
                then slice_to c2 (- int (length bsuffix))
                else c2)
      in strip c3 [newline])"

text \<open>What \<open>main\<close> writes to standard output for a buffer, a cursor position and a reply.\<close>

definition main_output :: "string \<Rightarrow> int \<Rightarrow> string \<Rightarrow> string" where
  "main_output buffer cursor_position completion =
     reconcile (buffer_prefix buffer cursor_position) (buffer_suffix buffer cursor_position)
       completion"

subsection \<open>The reconciliation steps as the specification words them\<close>

text \<open>Step (a): a reply that starts with the marker loses it.\<close>

definition remove_marker :: "string \<Rightarrow> string" where
  "remove_marker reply = (if prefix zsh_prefix reply then drop (length zsh_prefix) reply else reply)"

text \<open>
  Step (b): the portion of a text after its final line break, all of it if there is
  none; computed from the left.
\<close>

fun after_final_break :: "string \<Rightarrow> string" where
  "after_final_break [] = []"
| "after_final_break (c # cs) =
     (if newline \<in> set cs then after_final_break cs
      else if c = newline then cs else c # cs)"

text \<open>Step (c): strip one leading occurrence of the first candidate that leads the reply.\<close>

definition strip_leading :: "string \<Rightarrow> string \<Rightarrow> string option" where
  "strip_leading p reply = (if prefix p reply then Some (drop (length p) reply) else None)"

definition strip_prefix_overlap :: "string \<Rightarrow> string \<Rightarrow> string \<Rightarrow> string" where
  "strip_prefix_overlap p lp reply =
     (case strip_leading p reply of
        Some r \<Rightarrow> r
      | None \<Rightarrow> (case strip_leading lp reply of Some r \<Rightarrow> r | None \<Rightarrow> reply))"

text \<open>Step (d): a non-empty suffix that ends the reply is stripped once.\<close>

definition strip_suffix_overlap :: "string \<Rightarrow> string \<Rightarrow> string" where
  "strip_suffix_overlap s reply =
     (if s \<noteq> [] \<and> suffix s reply then take (length reply - length s) reply else reply)"

text \<open>Step (e): line breaks, and nothing else, are trimmed from both ends.\<close>

fun trim_trailing_breaks :: "string \<Rightarrow> string" where
  "trim_trailing_breaks [] = []"
| "trim_trailing_breaks (c # cs) =
     (if c = newline \<and> trim_trailing_breaks cs = [] then [] else c # trim_trailing_breaks cs)"

fun trim_leading_breaks :: "string \<Rightarrow> string" where
  "trim_leading_breaks [] = []"
| "trim_leading_breaks (c # cs) = (if c = newline then trim_leading_breaks cs else c # cs)"

definition reconcile_steps :: "string \<Rightarrow> string \<Rightarrow> string \<Rightarrow> string" where
  "reconcile_steps p s reply =
     trim_trailing_breaks (trim_leading_breaks
       (strip_suffix_overlap s
         (strip_prefix_overlap p (after_final_break p) (remove_marker reply))))"

section \<open>The file system seen by the scripts\<close>

text \<open>
  The file system is a snapshot: a map from path strings to what \<open>stat\<close> finds there.
  \<open>os.path.isdir\<close>, \<open>os.path.exists\<close> and \<open>os.path.isfile\<close> read it. Paths are opaque keys;
  permissions and parent directories are outside the model.
\<close>

datatype node = Directory | RegularFile string

type_synonym filesystem = "string \<rightharpoonup> node"

definition isdir :: "filesystem \<Rightarrow> string \<Rightarrow> bool" where
  "isdir fs path = (fs path = Some Directory)"

definition exists_path :: "filesystem \<Rightarrow> string \<Rightarrow> bool" where
  "exists_path fs path = (fs path \<noteq> None)"


text \<open>
  \<open>os.path.join(a, b)\<close> of \<open>posixpath\<close>: an absolute \<open>b\<close> replaces \<open>a\<close>; otherwise \<open>b\<close> is
  appended, after a separator unless \<open>a\<close> is empty or ends with one.
\<close>

definition os_path_join :: "string \<Rightarrow> string \<Rightarrow> string" where
  "os_path_join a b =
     (if startswith b ''/'' then b
      else if a = [] \<or> endswith a ''/'' then a @ b
      else a @ ''/'' @ b)"

subsection \<open>Classification of candidate paths\<close>

text \<open>
  \<open>extract_valid_dirs\<close> and \<open>extract_valid_files\<close>: each is a loop over \<open>paths\<close> that
  appends the one-element list \<open>[path]\<close> to its accumulator when the test holds.
\<close>

definition extract_valid_dirs :: "filesystem \<Rightarrow> string list \<Rightarrow> string \<Rightarrow> string list list" where
  "extract_valid_dirs fs paths cwd =
     foldl (\<lambda>valid_dirs path.
              if isdir fs (os_path_join cwd path) then valid_dirs @ [[path]] else valid_dirs)
           [] paths"

definition extract_valid_files :: "filesystem \<Rightarrow> string list \<Rightarrow> string \<Rightarrow> string list list" where
  "extract_valid_files fs paths cwd =
     foldl (\<lambda>valid_files path.
              if exists_path fs (os_path_join cwd path) \<and> \<not> isdir fs (os_path_join cwd path)
              then valid_files @ [[path]] else valid_files)
           [] paths"

subsection \<open>The template configuration file\<close>

text \<open>
  How a call ends: it returns, it leaves the process through \<open>sys.exit(code)\<close>, or an
  exception leaves it.
\<close>

datatype exc = KeyError | ValueError | AttributeError | UnicodeDecodeError
  | FileNotFoundError | IsADirectoryError | PermissionError | OSError | BackendError
















section \<open>Regular expressions as \<open>re\<close> matches them\<close>

text \<open>
  Character classes of a \<open>str\<close> pattern, on the characters of the model (code points
  0 to 255): \<open>\s\<close> is Python's \<open>str.isspace\<close>, and a word character of \<open>\b\<close> is an
  alphanumeric character or the underscore.
\<close>

definition is_space :: "char \<Rightarrow> bool" where
  "is_space c =
     (let n = (of_char c :: nat)
      in (9 \<le> n \<and> n \<le> 13) \<or> (28 \<le> n \<and> n \<le> 32) \<or> n = 133 \<or> n = 160)"

definition is_word :: "char \<Rightarrow> bool" where
  "is_word c =
     (let n = (of_char c :: nat)
      in (48 \<le> n \<and> n \<le> 57) \<or> (65 \<le> n \<and> n \<le> 90) \<or> n = 95 \<or> (97 \<le> n \<and> n \<le> 122) \<or>
         n = 170 \<or> n = 178 \<or> n = 179 \<or> n = 181 \<or> n = 185 \<or> n = 186 \<or>
         (188 \<le> n \<and> n \<le> 190) \<or> (192 \<le> n \<and> n \<le> 214) \<or> (216 \<le> n \<and> n \<le> 246) \<or>
         (248 \<le> n \<and> n \<le> 255))"

text \<open>The members of a bracketed class: a character, a range, or \<open>\s\<close>.\<close>

datatype item = Ch char | Range char char | SpaceClass

fun in_item :: "item \<Rightarrow> char \<Rightarrow> bool" where
  "in_item (Ch a) c = (c = a)"
| "in_item (Range lo hi) c =
     ((of_char lo :: nat) \<le> of_char c \<and> (of_char c :: nat) \<le> of_char hi)"
| "in_item SpaceClass c = is_space c"

text \<open>
  What consumes one character: a literal, \<open>\S\<close>, a class \<open>[...]\<close> or a negated class
  \<open>[^...]\<close>.
\<close>

datatype atom = Lit char | NonSpace | OneOf "item list" | NoneOf "item list"

fun in_atom :: "atom \<Rightarrow> char \<Rightarrow> bool" where
  "in_atom (Lit a) c = (c = a)"
| "in_atom NonSpace c = (\<not> is_space c)"
| "in_atom (OneOf its) c = list_ex (\<lambda>i. in_item i c) its"
| "in_atom (NoneOf its) c = (\<not> list_ex (\<lambda>i. in_item i c) its)"

text \<open>
  The pattern syntax the script uses: concatenation, alternation \<open>r|s\<close>, the greedy
  \<open>r?\<close> and \<open>r*\<close>, the assertion \<open>\b\<close>, and a capturing group \<open>(r)\<close>. A non-capturing
  group \<open>(?:r)\<close> is \<open>r\<close> itself. \<open>r+\<close> is \<open>r\<close> followed by \<open>r*\<close>, and \<open>r{1,2}\<close> is \<open>r\<close>
  followed by \<open>r?\<close>.
\<close>

datatype regex = Eps | Atom atom | WordBoundary | Seq regex regex | Alt regex regex
  | Opt regex | Star regex | Group regex

definition Plus :: "regex \<Rightarrow> regex" where
  "Plus r = Seq r (Star r)"

definition OneOrTwo :: "regex \<Rightarrow> regex" where
  "OneOrTwo r = Seq r (Opt r)"

text \<open>
  The pattern has one capturing group; a match carries its span, or \<open>None\<close> when the
  group took no part in the match.
\<close>

type_synonym capture = "(nat \<times> nat) option"

text \<open>\<open>\b\<close> at position \<open>p\<close>: exactly one of the characters before and after is a word character.\<close>

definition at_boundary :: "string \<Rightarrow> nat \<Rightarrow> bool" where
  "at_boundary s p =
     ((0 < p \<and> p \<le> length s \<and> is_word (s ! (p - 1))) \<noteq> (p < length s \<and> is_word (s ! p)))"

text \<open>
  The backtracking matcher. \<open>ms s r p c\<close> lists, for a match of \<open>r\<close> that starts at
  position \<open>p\<close> of \<open>s\<close> with capture \<open>c\<close>, every way to match, as the end position and
  the capture afterwards, in the order in which backtracking tries them: the left
  alternative before the right one, one more repetition before stopping. The engine
  takes the first. A repetition that consumes nothing is not repeated.
\<close>

function ms :: "string \<Rightarrow> regex \<Rightarrow> nat \<Rightarrow> capture \<Rightarrow> (nat \<times> capture) list" where
  "ms s Eps p c = [(p, c)]"
| "ms s (Atom a) p c = (if p < length s \<and> in_atom a (s ! p) then [(Suc p, c)] else [])"
| "ms s WordBoundary p c = (if at_boundary s p then [(p, c)] else [])"
| "ms s (Seq r1 r2) p c = concat (map (\<lambda>x. ms s r2 (fst x) (snd x)) (ms s r1 p c))"
| "ms s (Alt r1 r2) p c = ms s r1 p c @ ms s r2 p c"
| "ms s (Opt r) p c = ms s r p c @ [(p, c)]"
| "ms s (Star r) p c =
     concat (map (\<lambda>x. if p < fst x \<and> fst x \<le> length s
                        then ms s (Star r) (fst x) (snd x) else [])
                 (ms s r p c)) @ [(p, c)]"
| "ms s (Group r) p c = map (\<lambda>x. (fst x, Some (p, fst x))) (ms s r p c)"
  by pat_completeness auto
termination
  by (relation "inv_image (less_than <*lex*> less_than) (\<lambda>(s, r, p, c). (size r, length s - p))")
    auto

text \<open>
  The equation for \<open>r*\<close> mentions \<open>r*\<close> again, so the equations of \<open>ms\<close> are applied
  by name only.
\<close>

declare ms.simps [simp del]

text \<open>A match: where it starts, where it ends, and the span of the group.\<close>

datatype match = Match (m_start: nat) (m_end: nat) (m_group: capture)

text \<open>
  One attempt at position \<open>p\<close>. After an empty match the engine must advance: an
  empty match at \<open>p\<close> is then no match.
\<close>

definition search_at :: "string \<Rightarrow> regex \<Rightarrow> nat \<Rightarrow> bool \<Rightarrow> (nat \<times> capture) option" where
  "search_at s r p must_advance =
     (case filter (\<lambda>x. \<not> (must_advance \<and> fst x = p)) (ms s r p None) of
        [] \<Rightarrow> None
      | x # xs \<Rightarrow> Some x)"

text \<open>
  The scan of \<open>re.findall\<close> and \<open>re.finditer\<close>: the leftmost match from \<open>p\<close> on, then
  the scan goes on where that match ended.
\<close>

function scan :: "string \<Rightarrow> regex \<Rightarrow> nat \<Rightarrow> bool \<Rightarrow> match list" where
  "scan s r p must_advance =
     (case search_at s r p must_advance of
        Some x \<Rightarrow> Match p (fst x) (snd x) # scan s r (fst x) (fst x = p)
      | None \<Rightarrow> if p < length s then scan s r (Suc p) False else [])"
  by pat_completeness auto
termination
proof (relation "measure (\<lambda>(s, r, p, adv). 2 * (length s - p) + (if adv then 0 else 1))")
  show "wf (measure (\<lambda>(s, r, p, adv). 2 * (length s - p) + (if adv then 0 else 1)))"
    by simp
next
  fix s :: string and r :: regex and p :: nat and must_advance :: bool
  assume "search_at s r p must_advance = None" and "p < length s"
  then show "((s, r, Suc p, False), (s, r, p, must_advance))
      \<in> measure (\<lambda>(s, r, p, adv). 2 * (length s - p) + (if adv then 0 else 1))"
    by auto
next
  fix s :: string and r :: regex and p :: nat and must_advance :: bool
    and x :: "nat \<times> capture"
  assume found: "search_at s r p must_advance = Some x"
  have bounds: "p \<le> fst y \<and> fst y \<le> max p (length s)" if "y \<in> set (ms s r p c)"
    for s r p c and y :: "nat \<times> capture"
    using that
  proof (induction s r p c arbitrary: y rule: ms.induct)
    case (1 s p c)
    then show ?case by (simp add: ms.simps(1))
  next
    case (2 s a p c)
    then show ?case by (auto simp add: ms.simps(2) split: if_splits)
  next
    case (3 s p c)
    then show ?case by (auto simp add: ms.simps(3) split: if_splits)
  next
    case (4 s r1 r2 p c)
    from "4.prems" obtain x where x: "x \<in> set (ms s r1 p c)"
      and y: "y \<in> set (ms s r2 (fst x) (snd x))"
      by (auto simp add: ms.simps(4))
    from "4.IH"(1)[OF x] have b1: "p \<le> fst x \<and> fst x \<le> max p (length s)" .
    from "4.IH"(2)[OF x y] have "fst x \<le> fst y \<and> fst y \<le> max (fst x) (length s)" .
    with b1 show ?case by (auto simp add: max_def split: if_splits)
  next
    case (5 s r1 r2 p c)
    from "5.prems" have "y \<in> set (ms s r1 p c) \<or> y \<in> set (ms s r2 p c)"
      by (simp add: ms.simps(5))
    with "5.IH" show ?case by blast
  next
    case (6 s r p c)
    from "6.prems" have "y \<in> set (ms s r p c) \<or> y = (p, c)"
      by (auto simp add: ms.simps(6))
    then show ?case
    proof
      assume "y \<in> set (ms s r p c)"
      then show ?thesis by (rule "6.IH")
    next
      assume "y = (p, c)"
      then show ?thesis by simp
    qed
  next
    case (7 s r p c)
    from "7.prems" consider "y = (p, c)"
      | x where "x \<in> set (ms s r p c)" "p < fst x" "fst x \<le> length s"
          "y \<in> set (ms s (Star r) (fst x) (snd x))"
      by (subst (asm) ms.simps(7)) (auto split: if_splits)
    then show ?case
    proof cases
      case 1
      then show ?thesis by simp
    next
      case 2
      have "p < fst x \<and> fst x \<le> length s" using 2(2,3) by simp
      from "7.IH"(2)[OF 2(1) this 2(4)]
      have "fst x \<le> fst y \<and> fst y \<le> max (fst x) (length s)" .
      with 2(2,3) show ?thesis by (auto simp add: max_def)
    qed
  next
    case (8 s r p c)
    from "8.prems" obtain x where x: "x \<in> set (ms s r p c)" and e: "fst y = fst x"
      by (auto simp add: ms.simps(8))
    from "8.IH"[OF x] e show ?case by simp
  qed
  from found obtain xs
    where "filter (\<lambda>x. \<not> (must_advance \<and> fst x = p)) (ms s r p None) = x # xs"
    by (auto simp add: search_at_def split: list.splits)
  then have "x \<in> set (filter (\<lambda>x. \<not> (must_advance \<and> fst x = p)) (ms s r p None))"
    by simp
  then have "x \<in> set (ms s r p None)" and na: "\<not> (must_advance \<and> fst x = p)"
    by auto
  from bounds[OF this(1)] have "p \<le> fst x" and "fst x \<le> max p (length s)"
    by simp_all
  with na show "((s, r, fst x, fst x = p), (s, r, p, must_advance))
      \<in> measure (\<lambda>(s, r, p, adv). 2 * (length s - p) + (if adv then 0 else 1))"
    by (auto simp add: max_def split: if_splits)
qed

declare scan.simps [simp del]

text \<open>
  \<open>re.findall\<close> for a pattern with one group returns, for each match, the text of the
  group, and the empty string when the group took no part in the match.
\<close>

definition group_text :: "string \<Rightarrow> match \<Rightarrow> string" where
  "group_text s m =
     (case m_group m of None \<Rightarrow> [] | Some (a, b) \<Rightarrow> take (b - a) (drop a s))"

definition re_findall :: "regex \<Rightarrow> string \<Rightarrow> string list" where
  "re_findall r s = map (group_text s) (scan s r 0 False)"

section \<open>Path extraction\<close>

text \<open>
  \<open>unix_path_pattern = r"(\.{1,2}/\S+|/\S+|\b\S+/\S+\b)"\<close>: the parentheses are a
  capturing group around the three alternatives.
\<close>

definition unix_path_pattern :: regex where
  "unix_path_pattern =
     Group
       (Alt (Seq (OneOrTwo (Atom (Lit CHR ''.'')))
              (Seq (Atom (Lit CHR ''/'')) (Plus (Atom NonSpace))))
       (Alt (Seq (Atom (Lit CHR ''/'')) (Plus (Atom NonSpace)))
            (Seq WordBoundary
              (Seq (Plus (Atom NonSpace))
                (Seq (Atom (Lit CHR ''/''))
                  (Seq (Plus (Atom NonSpace)) WordBoundary))))))"

text \<open>
  \<open>windows_path_pattern = r"[a-zA-Z]:\\(?:[^\\\s,]+\\?)*[^\\\s,]+"\<close>: it has no
  capturing group.
\<close>

definition segment_char :: atom where
  "segment_char = NoneOf [Ch backslash, SpaceClass, Ch CHR '','']"

definition windows_path_pattern :: regex where
  "windows_path_pattern =
     Seq (Atom (OneOf [Range CHR ''a'' CHR ''z'', Range CHR ''A'' CHR ''Z'']))
       (Seq (Atom (Lit CHR '':''))
         (Seq (Atom (Lit backslash))
           (Seq (Star (Seq (Plus (Atom segment_char)) (Opt (Atom (Lit backslash)))))
             (Plus (Atom segment_char)))))"

text \<open>\<open>combined_pattern = f"{unix_path_pattern}|{windows_path_pattern}"\<close>.\<close>

definition combined_pattern :: regex where
  "combined_pattern = Alt unix_path_pattern windows_path_pattern"

text \<open>
  The check \<open>all([[isinstance(p, str)] for p in matches])\<close>. Each element of the list
  handed to \<open>all\<close> is itself a list, \<open>[True]\<close> or \<open>[False]\<close>, and \<open>all\<close> asks whether each
  element is truthy; a list is truthy when it is not empty.
\<close>

datatype pyobj = PyStr string | PyNone | PyTuple "pyobj list"

fun isinstance_str :: "pyobj \<Rightarrow> bool" where
  "isinstance_str (PyStr s) = True"
| "isinstance_str PyNone = False"
| "isinstance_str (PyTuple xs) = False"

definition truthy_list :: "'a list \<Rightarrow> bool" where
  "truthy_list xs = (xs \<noteq> [])"

primrec py_all :: "bool list list \<Rightarrow> bool" where
  "py_all [] = True"
| "py_all (x # xs) = (truthy_list x \<and> py_all xs)"

definition type_checks :: "pyobj list \<Rightarrow> bool list list" where
  "type_checks matches = map (\<lambda>p. [isinstance_str p]) matches"

text \<open>What a script prints: a text, or the \<open>repr\<close> of a list.\<close>

datatype printed = Text string | StrList "string list" | CheckList "bool list list"

text \<open>
  \<open>extract_paths\<close> of \<open>create_completion.py\<close>: what it prints and what it returns.
\<close>

definition extract_paths :: "string \<Rightarrow> printed list \<times> string list" where
  "extract_paths text =
     (let matches = re_findall combined_pattern text
      in if \<not> py_all (type_checks (map PyStr matches))
         then ([Text ''[ WARNING ] Failed to extract paths in zsh_codex''], [])
         else ([], matches))"

text \<open>
  \<open>extract_paths\<close> of the script \<open>extract_paths.py\<close>: the same, after printing the
  matches and the list of checks.
\<close>

definition extract_paths_script :: "string \<Rightarrow> printed list \<times> string list" where
  "extract_paths_script input_string =
     (let matches = re_findall combined_pattern input_string;
          out = [StrList matches, CheckList (type_checks (map PyStr matches))]
      in if \<not> py_all (type_checks (map PyStr matches))
         then (out @ [Text ''[ WARNING ] Failed to extract paths in zsh_codex''], [])
         else (out, matches))"

text \<open>The Windows path of the example, \<open>C:\dir\file.txt\<close>.\<close>

definition windows_example :: string where
  "windows_example = ''C:'' @ [backslash] @ ''dir'' @ [backslash] @ ''file.txt''"



section \<open>The completion path and its effects\<close>









section \<open>Properties of the string operations\<close>

lemma startswith_iff_prefix: "startswith s p = prefix p s"
  unfolding startswith_def
  by (metis prefix_def append_eq_conv_conj take_is_prefix)

lemma endswith_iff_suffix: "endswith s p = suffix p s"
  unfolding endswith_def
  by (metis suffix_def append_eq_conv_conj suffix_drop suffix_length_le length_append
      add_diff_cancel_right')

lemma slice_from_nat: "slice_from s (int n) = drop n s"
  by (simp add: slice_from_def clip_index_def min_def)

lemma slice_to_neg: "0 < n \<Longrightarrow> slice_to s (- int n) = take (length s - n) s"
  by (auto simp add: slice_to_def clip_index_def max_def nat_diff_distrib')

lemma slice_to_from: "slice_to s i @ slice_from s i = s"
  by (simp add: slice_to_def slice_from_def)

lemma takeWhile_rev_no_sep:
  "sep \<notin> set cs \<Longrightarrow>
   takeWhile (\<lambda>c. c \<noteq> sep) (rev cs @ ys) = rev cs @ takeWhile (\<lambda>c. c \<noteq> sep) ys"
  by (rule takeWhile_append2) auto

lemma takeWhile_rev_sep:
  "sep \<in> set cs \<Longrightarrow>
   takeWhile (\<lambda>c. c \<noteq> sep) (rev cs @ ys) = takeWhile (\<lambda>c. c \<noteq> sep) (rev cs)"
  by (rule takeWhile_append1[where x = sep]) auto

lemma last_rsplit1:
  "last (rsplit1 sep s) =
     (if sep \<in> set s then rev (takeWhile (\<lambda>c. c \<noteq> sep) (rev s)) else s)"
  by (simp add: rsplit1_def)

lemma line_prefix_after_final_break: "line_prefix p = after_final_break p"
  unfolding line_prefix_def
proof (induction p)
  case Nil
  then show ?case by (simp add: rsplit1_def)
next
  case (Cons c cs)
  show ?case
  proof (cases "newline \<in> set cs")
    case True
    then show ?thesis using Cons by (simp add: last_rsplit1 takeWhile_rev_sep)
  next
    case False
    then show ?thesis by (simp add: last_rsplit1 takeWhile_rev_no_sep)
  qed
qed

lemma trim_leading_dropWhile:
  "trim_leading_breaks s = dropWhile (\<lambda>c. c \<in> set [newline]) s"
  by (induction s) auto

lemma trim_trailing_dropWhile:
  "trim_trailing_breaks s = rev (dropWhile (\<lambda>c. c \<in> set [newline]) (rev s))"
  by (induction s) (auto simp add: dropWhile_append)

lemma strip_newline: "strip s [newline] = trim_trailing_breaks (trim_leading_breaks s)"
  by (simp add: strip_def trim_leading_dropWhile trim_trailing_dropWhile)

lemma remove_marker_eq:
  "(if startswith c zsh_prefix then slice_from c (int (length zsh_prefix)) else c) =
     remove_marker c"
  by (simp add: remove_marker_def startswith_iff_prefix slice_from_nat)

lemma strip_first_prefix_eq: "strip_first_prefix c [p, lp] = strip_prefix_overlap p lp c"
  by (simp add: strip_prefix_overlap_def strip_leading_def startswith_iff_prefix slice_from_nat)

lemma strip_suffix_eq:
  "(if s \<noteq> [] \<and> endswith c s then slice_to c (- int (length s)) else c) =
     strip_suffix_overlap s c"
  by (simp add: strip_suffix_overlap_def endswith_iff_suffix slice_to_neg)

lemma strip_no_surrounding:
  assumes "s = [] \<or> (hd s \<notin> set chars \<and> last s \<notin> set chars)"
  shows "strip s chars = s"
proof (cases s)
  case Nil
  then show ?thesis by (simp add: strip_def)
next
  case (Cons c cs)
  with assms have h: "hd s \<notin> set chars" and l: "last s \<notin> set chars" by auto
  from h Cons have "dropWhile (\<lambda>c. c \<in> set chars) s = s" by simp
  moreover from l Cons have "dropWhile (\<lambda>c. c \<in> set chars) (rev s) = rev s"
    by (cases "rev s") (auto simp add: hd_rev[symmetric])
  ultimately show ?thesis by (simp add: strip_def)
qed

section \<open>Reconciliation of the reply\<close>

text \<open>
  C1: the post-processing of \<open>main\<close> is the five steps in the stated order: remove a
  leading marker; take the line prefix as the text after the final line break of the
  prefix; strip one leading occurrence of the prefix or else of the line prefix; strip a
  trailing occurrence of a non-empty suffix; trim line breaks at both ends. For the
  buffer \<open>"list files\n"\<close>, cursor position 11 and the reply made of the marker,
  \<open>"list files"\<close>, a line break and \<open>"ls -la"\<close>, the output is \<open>"ls -la"\<close>.
\<close>

theorem reconcile_is_the_five_steps:
  "reconcile p s reply = reconcile_steps p s reply \<and>
   main_output (''list files'' @ [newline]) 11
     (zsh_prefix @ ''list files'' @ [newline] @ ''ls -la'') = ''ls -la''"
proof
  show "reconcile p s reply = reconcile_steps p s reply"
    unfolding reconcile_def reconcile_steps_def Let_def
    unfolding remove_marker_eq line_prefix_after_final_break strip_first_prefix_eq
      strip_suffix_eq strip_newline
    by (rule refl)
  show "main_output (''list files'' @ [newline]) 11
     (zsh_prefix @ ''list files'' @ [newline] @ ''ls -la'') = ''ls -la''"
    by (simp add: main_output_def reconcile_def buffer_prefix_def buffer_suffix_def
        slice_to_def slice_from_def clip_index_def zsh_prefix_def startswith_def endswith_def
        line_prefix_def rsplit1_def strip_def newline_def)
qed

text \<open>
  C5: a reply that is already the final completion is returned unchanged. Such a reply
  does not start with the marker, does not start with a non-empty prefix or a non-empty
  line prefix, does not end with a non-empty suffix, and neither starts nor ends with a
  line break.
\<close>

theorem reconcile_final_unchanged:
  assumes "\<not> startswith raw zsh_prefix"
    and "bprefix \<noteq> [] \<Longrightarrow> \<not> startswith raw bprefix"
    and "line_prefix bprefix \<noteq> [] \<Longrightarrow> \<not> startswith raw (line_prefix bprefix)"
    and "bsuffix \<noteq> [] \<Longrightarrow> \<not> endswith raw bsuffix"
    and "raw = [] \<or> (hd raw \<noteq> newline \<and> last raw \<noteq> newline)"
  shows "reconcile bprefix bsuffix raw = raw"
proof -
  have lead: "strip_first_prefix raw [bprefix, line_prefix bprefix] = raw"
  proof (cases "bprefix = []")
    case True
    then show ?thesis by (simp add: startswith_def slice_from_def clip_index_def)
  next
    case False
    with assms(2) have n: "\<not> startswith raw bprefix" by simp
    show ?thesis
    proof (cases "line_prefix bprefix = []")
      case True
      with n show ?thesis by (simp add: startswith_def slice_from_def clip_index_def)
    next
      case False
      with assms(3) n show ?thesis by simp
    qed
  qed
  have trail: "\<not> (bsuffix \<noteq> [] \<and> endswith raw bsuffix)"
    using assms(4) by blast
  have trim: "strip raw [newline] = raw"
    using assms(5) by (intro strip_no_surrounding) auto
  show ?thesis
    unfolding reconcile_def Let_def
    by (simp only: assms(1) lead trail trim if_False)
qed

theorem reconcile_final_unchanged_witness:
  "\<not> startswith ''hello'' zsh_prefix \<and> \<not> startswith ''hello'' ''echo '' \<and>
   line_prefix ''echo '' = ''echo '' \<and> \<not> endswith ''hello'' '' > out'' \<and>
   hd ''hello'' \<noteq> newline \<and> last ''hello'' \<noteq> newline \<and>
   reconcile ''echo '' '' > out'' ''hello'' = ''hello''"
proof -
  have a: "\<not> startswith ''hello'' zsh_prefix"
    by (simp add: startswith_def zsh_prefix_def)
  have b: "\<not> startswith ''hello'' ''echo ''"
    by (simp add: startswith_def)
  have c: "line_prefix ''echo '' = ''echo ''"
    by (simp add: line_prefix_def rsplit1_def newline_def)
  have d: "\<not> endswith ''hello'' '' > out''"
    by (simp add: endswith_def)
  have e: "hd ''hello'' \<noteq> newline \<and> last ''hello'' \<noteq> newline"
    by (simp add: newline_def)
  have "reconcile ''echo '' '' > out'' ''hello'' = ''hello''"
    using reconcile_final_unchanged [of "''hello''" "''echo ''" "'' > out''"] a b c d e
    by simp
  with a b c d e show ?thesis by simp
qed

text \<open>
  C9: for every buffer and every integer cursor position, also a negative one and one
  beyond the end, the two parts of the buffer concatenate to the buffer, and the text
  handed to the backend is the marker followed by the buffer.
\<close>

theorem split_buffer_concat:
  "buffer_prefix buffer cursor_position @ buffer_suffix buffer cursor_position = buffer \<and>
   full_command buffer cursor_position = zsh_prefix @ buffer"
  by (simp add: full_command_def buffer_prefix_def buffer_suffix_def slice_to_from)

section \<open>Classification of candidate paths\<close>

lemma foldl_append_if:
  "foldl (\<lambda>acc x. if P x then acc @ [f x] else acc) acc0 xs = acc0 @ map f (filter P xs)"
  by (induction xs arbitrary: acc0) auto

lemma extract_valid_dirs_eq:
  "extract_valid_dirs fs paths cwd =
     map (\<lambda>p. [p]) (filter (\<lambda>p. isdir fs (os_path_join cwd p)) paths)"
  unfolding extract_valid_dirs_def by (simp add: foldl_append_if)

lemma extract_valid_files_eq:
  "extract_valid_files fs paths cwd =
     map (\<lambda>p. [p])
       (filter (\<lambda>p. exists_path fs (os_path_join cwd p) \<and> \<not> isdir fs (os_path_join cwd p)) paths)"
  unfolding extract_valid_files_def by (simp add: foldl_append_if)

lemma isdir_exists: "isdir fs p \<Longrightarrow> exists_path fs p"
  by (simp add: isdir_def exists_path_def)

text \<open>
  C3: \<open>valid_dirs\<close> is the list of the candidates whose join with \<open>cwd\<close> is a directory,
  \<open>valid_files\<close> the list of those whose join exists and is not a directory, each in
  the order of the input and each candidate wrapped as the one-element list of the
  original string; a candidate whose join does not exist is in neither.
\<close>

theorem classification_outputs:
  "extract_valid_dirs fs paths cwd =
     map (\<lambda>p. [p]) (filter (\<lambda>p. isdir fs (os_path_join cwd p)) paths) \<and>
   extract_valid_files fs paths cwd =
     map (\<lambda>p. [p])
       (filter (\<lambda>p. exists_path fs (os_path_join cwd p) \<and> \<not> isdir fs (os_path_join cwd p)) paths) \<and>
   (\<not> exists_path fs (os_path_join cwd p) \<longrightarrow>
      [p] \<notin> set (extract_valid_dirs fs paths cwd) \<and>
      [p] \<notin> set (extract_valid_files fs paths cwd))"
  by (auto simp add: extract_valid_dirs_eq extract_valid_files_eq dest: isdir_exists)

theorem classification_outputs_witness:
  "\<not> exists_path [''/w/d'' \<mapsto> Directory, ''/w/f'' \<mapsto> RegularFile ''x''] (os_path_join ''/w'' ''n'') \<and>
   extract_valid_dirs [''/w/d'' \<mapsto> Directory, ''/w/f'' \<mapsto> RegularFile ''x''] [''f'', ''n'', ''d''] ''/w''
     = [[''d'']] \<and>
   extract_valid_files [''/w/d'' \<mapsto> Directory, ''/w/f'' \<mapsto> RegularFile ''x''] [''f'', ''n'', ''d''] ''/w''
     = [[''f'']] \<and>
   [''n''] \<notin> set (extract_valid_dirs [''/w/d'' \<mapsto> Directory, ''/w/f'' \<mapsto> RegularFile ''x'']
                     [''f'', ''n'', ''d''] ''/w'') \<and>
   [''n''] \<notin> set (extract_valid_files [''/w/d'' \<mapsto> Directory, ''/w/f'' \<mapsto> RegularFile ''x'']
                     [''f'', ''n'', ''d''] ''/w'')"
  using classification_outputs
    [of "[''/w/d'' \<mapsto> Directory, ''/w/f'' \<mapsto> RegularFile ''x'']" "[''f'', ''n'', ''d'']" "''/w''" "''n''"]
  by (simp add: exists_path_def isdir_def os_path_join_def startswith_def endswith_def)

text \<open>
  C4: on one file system, no candidate is both in the output of \<open>extract_valid_dirs\<close>
  and in the output of \<open>extract_valid_files\<close>.
\<close>

theorem classification_disjoint:
  "set (extract_valid_dirs fs paths cwd) \<inter> set (extract_valid_files fs paths cwd) = {}"
  by (auto simp add: extract_valid_dirs_eq extract_valid_files_eq)

section \<open>The template configuration file\<close>












section \<open>Matches and capturing groups\<close>




lemma py_all_type_checks: "py_all (type_checks matches)"
  by (induction matches) (simp_all add: type_checks_def truthy_list_def)

lemma extract_paths_eq: "extract_paths text = ([], re_findall combined_pattern text)"
  by (simp add: extract_paths_def Let_def py_all_type_checks)

section \<open>Effects of the completion path\<close>













section \<open>Matches found by the scan\<close>



lemma scan_windows_example:
  "scan windows_example combined_pattern 0 False = [Match 0 15 None]"
  by code_simp

lemma extract_paths_windows_example: "extract_paths windows_example = ([], [[]])"
  by (simp add: extract_paths_eq re_findall_def scan_windows_example group_text_def)

section \<open>Path extraction\<close>

text \<open>
  C6: the check before the warning holds for every list of matches, whatever the
  matches are, so neither \<open>extract_paths\<close> prints the warning and returns through that
  branch: the one of \<open>create_completion.py\<close> prints nothing and returns the matches, the
  one of \<open>extract_paths.py\<close> prints its two lists and returns the matches.
\<close>

theorem warning_branch_unreachable:
  "py_all (type_checks matches) \<and>
   extract_paths text = ([], re_findall combined_pattern text) \<and>
   extract_paths_script text =
     ([StrList (re_findall combined_pattern text),
       CheckList (type_checks (map PyStr (re_findall combined_pattern text)))],
      re_findall combined_pattern text)"
  by (simp add: extract_paths_eq extract_paths_script_def Let_def py_all_type_checks)



text \<open>
  C2, on the text \<open>C:\dir\file.txt\<close>: \<open>extract_paths\<close> returns the list whose only entry
  is the empty string, and the Windows path is not in it.
\<close>

theorem windows_path_not_returned:
  "snd (extract_paths windows_example) = [[]] \<and>
   windows_example \<notin> set (snd (extract_paths windows_example))"
proof -
  have "windows_example \<noteq> []"
    by (simp add: windows_example_def)
  then show ?thesis
    by (simp add: extract_paths_windows_example)
qed

section \<open>Effects\<close>








end
